theory Spec2Isabelle
  imports Main "HOL-Library.Word"
begin

unbundle bit_operations_syntax

section \<open>The input buffer\<close>

text \<open>
  \<^verbatim>\<open>GIF_Load(data, size, ...)\<close> receives a pointer and a byte count. The pointer is
  modelled as the memory it points into, a total function from byte offsets to bytes;
  \<^verbatim>\<open>size\<close> is passed separately, as in C, so a call on a prefix of a buffer is the same
  memory with a smaller \<^verbatim>\<open>size\<close>. A cursor (\<^verbatim>\<open>uint8_t *buff\<close>) is an offset into that
  memory. C's \<^verbatim>\<open>long\<close> is modelled as \<open>int\<close>: every \<^verbatim>\<open>long\<close> of the decoder is bounded
  by the input size or by 65535 * 65535 + 16384, which a 64-bit \<^verbatim>\<open>long\<close> holds.
\<close>

type_synonym u8 = "8 word"
type_synonym u32 = "32 word"
type_synonym mem = "nat \<Rightarrow> u8"

text \<open>\<^verbatim>\<open>_GIF_SWAP(*(uint16_t*)p)\<close>: the little-endian 16-bit value at offset \<open>p\<close>.\<close>

definition le16 :: "mem \<Rightarrow> nat \<Rightarrow> nat" where
  "le16 d p = unat (d p) + 256 * unat (d (p + 1))"

section \<open>\<^verbatim>\<open>_GIF_SkipChunk\<close>\<close>

text \<open>
  The \<^verbatim>\<open>do ... while (skip > 1)\<close> loop of \<^verbatim>\<open>_GIF_SkipChunk\<close>. The result is the return
  value (\<open>True\<close> for 1, \<open>False\<close> for 0) with the final cursor and remaining size.
\<close>

function SkipChunk_loop :: "mem \<Rightarrow> nat \<Rightarrow> int \<Rightarrow> bool \<times> nat \<times> int" where
  "SkipChunk_loop d buff sz =
     (let skip = 1 + unat (d buff);
          buff' = buff + skip;
          sz' = sz - int skip
      in if sz' \<le> 0 then (False, buff', sz')
         else if skip > 1 then SkipChunk_loop d buff' sz'
         else (True, buff', sz'))"
  by pat_completeness auto
termination
proof (relation "measure (\<lambda>(d, buff, sz). nat sz)")
  fix d :: mem and buff :: nat and sz :: int and x xa xb
  assume "x = 1 + unat (d buff)" "xb = sz - int x" "\<not> xb \<le> 0"
  then have "0 < xb \<and> xb < sz" by linarith
  then show "((d, xa, xb), (d, buff, sz)) \<in> measure (\<lambda>(d, buff, sz). nat sz)" by simp
qed simp

declare SkipChunk_loop.simps [simp del]

definition GIF_SkipChunk :: "mem \<Rightarrow> nat \<Rightarrow> int \<Rightarrow> bool \<times> nat \<times> int" where
  "GIF_SkipChunk d buff sz =
     (let buff' = buff + 1;
          sz' = sz - 1
      in if sz' \<le> 0 then (False, buff', sz')
         else SkipChunk_loop d buff' sz')"

section \<open>\<^verbatim>\<open>_GIF_LoadFrameHdr\<close>\<close>

text \<open>
  Arguments as in C; \<open>rpal\<close> is the current value of \<^verbatim>\<open>*rpal\<close> (an offset into the
  input, \<open>None\<close> for a null pointer). The result is the return value with the updated
  \<^verbatim>\<open>*buff\<close>, \<^verbatim>\<open>*size\<close> and \<^verbatim>\<open>*rpal\<close>. With \<open>flen = 0\<close> the C code never touches the
  three pointers. The test \<^verbatim>\<open>!(*buff += flen)\<close> is a null check on a pointer into the
  input and is never true.
\<close>

definition GIF_LoadFrameHdr ::
  "nat \<Rightarrow> int \<Rightarrow> nat \<Rightarrow> u8 \<Rightarrow> u8 \<Rightarrow> nat option \<Rightarrow> int \<times> nat \<times> int \<times> nat option" where
  "GIF_LoadFrameHdr buff sz flen gflg fflg rpal =
     (if flen \<noteq> 0 \<and> sz - int flen \<le> 0 then (- 2, buff + flen, sz - int flen, rpal)
      else
        let buff1 = buff + flen;
            sz1 = sz - int flen
        in if flen \<noteq> 0 \<and> fflg AND 0x80 \<noteq> 0 then
             let rclr = 2 * 2 ^ unat (fflg AND 7);
                 buff2 = buff1 + rclr * 3;
                 sz2 = sz1 - int (rclr * 3)
             in if sz2 \<le> 0 then (- 1, buff2, sz2, Some buff1)
                else (int rclr, buff2, sz2, Some buff1)
           else if gflg AND 0x80 \<noteq> 0 then (int (2 * 2 ^ unat (gflg AND 7)), buff1, sz1, rpal)
           else (0, buff1, sz1, rpal))"


section \<open>\<^verbatim>\<open>_GIF_LoadFrame\<close>: the LZW expander\<close>

text \<open>
  How a call can end without returning a value. \<open>Hang\<close>: a loop never ends.
  \<open>DictRange\<close>: an access \<^verbatim>\<open>code[i]\<close> to the dictionary scratch with \<open>i\<close> outside
  \<open>[0, 4095]\<close>. \<open>RasterRange\<close>: a write through \<^verbatim>\<open>bptr\<close> outside the raster region of
  \<^verbatim>\<open>xdim * ydim\<close> bytes (the C code does not check it, and would overwrite the dictionary
  scratch before the raster or the heap after it).
\<close>

datatype abort = Hang | DictRange | RasterRange

text \<open>
  The outcome of a piece of a loop body: control goes on (\<open>Next\<close>), the function
  returns a value (\<open>Return\<close>), or the call is aborted.
\<close>

datatype 'a flow = Next 'a | Return int 'a | Abort abort

text \<open>
  The locals of \<^verbatim>\<open>_GIF_LoadFrame\<close> with the memory it works on. \<open>buff\<close> and \<open>sz\<close> are
  \<^verbatim>\<open>*buff\<close> and \<^verbatim>\<open>*size\<close>; \<open>bptr\<close> is the offset of \<^verbatim>\<open>bptr\<close> from the start of the
  raster; \<open>msk\<close> is \<^verbatim>\<open>mask\<close>; \<open>load\<close> and \<open>msk\<close> are \<^verbatim>\<open>uint16_t\<close>, kept below 65536
  by an explicit \<open>mod\<close> where C casts; \<open>code\<close> is the dictionary scratch, \<open>ras\<close> the
  raster and \<open>rlen\<close> its length in bytes.
\<close>

record lzw =
  buff :: nat
  sz :: int
  bptr :: int
  load :: nat
  msk :: nat
  iter :: nat
  ctbl :: nat
  curr :: nat
  prev :: nat
  ctsz :: nat
  ccsz :: nat
  bseq :: int
  bszc :: int
  code :: "nat \<Rightarrow> u32"
  ras :: "nat \<Rightarrow> u8"
  rlen :: nat

text \<open>\<^verbatim>\<open>(GIF_H)((1 << ccsz) - 1)\<close>\<close>

definition mask_of :: "nat \<Rightarrow> nat" where
  "mask_of n = (2 ^ n - 1) mod 65536"

text \<open>
  The inner \<^verbatim>\<open>while (!0)\<close> loop (lines 160 to 165): the string of the dictionary entry
  \<open>iter\<close> is written backwards from \<open>bptr\<close>, following the prefix links until an entry
  whose length field is zero.
\<close>

function expand :: "lzw \<Rightarrow> lzw flow" where
  "expand s =
     (if 4096 \<le> iter s then Abort DictRange
      else if bptr s < 0 \<or> int (rlen s) \<le> bptr s then Abort RasterRange
      else
        let s1 = s\<lparr>ras := (ras s)(nat (bptr s) := ucast (drop_bit 24 (code s (iter s)))),
                   bptr := bptr s - 1\<rparr>
        in if code s1 (iter s1) AND 0xFFF000 = 0 then Next s1
           else expand (s1\<lparr>iter := unat (code s1 (iter s1) AND 0xFFF)\<rparr>))"
  by pat_completeness auto
termination
  by (relation "measure (\<lambda>s. nat (bptr s + 1))") auto

declare expand.simps [simp del]

text \<open>Lines 173 to 176, the end of the body of \<^verbatim>\<open>while (bszc >= 0)\<close>.\<close>

definition next_code :: "lzw \<Rightarrow> lzw" where
  "next_code s =
     s\<lparr>prev := curr s, curr := load s, bszc := bszc s - int (ccsz s),
       load := drop_bit (ccsz s) (load s)\<rparr>"

text \<open>Lines 148 to 156: a new dictionary entry for the previous code.\<close>

definition append_entry :: "lzw \<Rightarrow> lzw flow" where
  "append_entry s =
     (let s1 = s\<lparr>ctbl := ctbl s + 1\<rparr>
      in if ctbl s1 < 4096 then
           let s2 = (if ctbl s1 = msk s1 \<and> ctbl s1 < 4095
                     then s1\<lparr>msk := (msk s1 + msk s1 + 1) mod 65536, ccsz := ccsz s1 + 1\<rparr>
                     else s1)
           in if 4096 \<le> prev s2 then Abort DictRange
              else Next (s2\<lparr>code := (code s2)(ctbl s2 :=
                     word_of_nat (prev s2) + 0x1000 + (code s2 (prev s2) AND 0xFFF000))\<rparr>)
         else Next s1)"

text \<open>Lines 158 to 168: the pixels of the current code are appended to the frame.\<close>

definition emit_pixels :: "lzw \<Rightarrow> lzw flow" where
  "emit_pixels s =
     (let s1 = s\<lparr>iter := (if curr s \<ge> ctbl s then prev s else curr s)\<rparr>
      in if 4096 \<le> iter s1 then Abort DictRange
         else
           let s2 = s1\<lparr>prev := unat (drop_bit 12 (code s1 (iter s1)) AND 0xFFF)\<rparr>;
               s3 = s2\<lparr>bptr := bptr s2 + int (prev s2)\<rparr>
           in case expand s3 of
                Next s4 \<Rightarrow>
                  let s5 = s4\<lparr>bptr := bptr s4 + int (prev s4) + 2\<rparr>
                  in if curr s5 \<ge> ctbl s5 then
                       if 4096 \<le> iter s5 then Abort DictRange
                       else if bptr s5 < 0 \<or> int (rlen s5) \<le> bptr s5 then Abort RasterRange
                       else Next (s5\<lparr>ras := (ras s5)(nat (bptr s5) :=
                                          ucast (drop_bit 24 (code s5 (iter s5)))),
                                      bptr := bptr s5 + 1\<rparr>)
                     else Next s5
              | r \<Rightarrow> r)"

text \<open>Lines 170 and 171: the first byte of the string just written completes the new entry.\<close>

definition patch_entry :: "lzw \<Rightarrow> lzw flow" where
  "patch_entry s =
     (if ctbl s < 4096 then
        if 4096 \<le> iter s then Abort DictRange
        else Next (s\<lparr>code := (code s)(ctbl s :=
               code s (ctbl s) OR (code s (iter s) AND 0xFF000000))\<rparr>)
      else Next s)"

text \<open>
  One pass through the body of \<^verbatim>\<open>while (bszc >= 0)\<close> (lines 136 to 176).
  \<^verbatim>\<open>curr & (GIF_U)~1\<close> clears bit 0 of \<open>curr\<close>.
\<close>

definition lzw_code :: "mem \<Rightarrow> lzw \<Rightarrow> lzw flow" where
  "lzw_code d s0 =
     (let s = s0\<lparr>curr := curr s0 AND msk s0\<rparr>
      in if unset_bit 0 (curr s) = 2 ^ ctsz s then
           if curr s AND 1 \<noteq> 0 then
             let s1 = s\<lparr>buff := nat (int (buff s) + bseq s), sz := sz s - 1\<rparr>
             in Return (if d (buff s1) \<noteq> 0 then - 1 else 1) (s1\<lparr>buff := buff s1 + 1\<rparr>)
           else Next (next_code (s\<lparr>ctbl := 2 ^ ctsz s, ccsz := ctsz s + 1,
                                    msk := mask_of (ctsz s + 1)\<rparr>))
         else
           case append_entry s of
             Next s1 \<Rightarrow>
               (case emit_pixels s1 of
                  Next s2 \<Rightarrow>
                    (case patch_entry s2 of
                       Next s3 \<Rightarrow> Next (next_code s3)
                     | r \<Rightarrow> r)
                | r \<Rightarrow> r)
           | r \<Rightarrow> r)"

text \<open>
  The loop \<^verbatim>\<open>while (bszc >= 0)\<close>. It ends because \<open>ccsz\<close> is positive, which is not
  visible in the loop itself, so the loop is a partial function: \<open>None\<close> when it runs
  forever. \<open>lzw_codes\<close> turns that into the outcome \<open>Abort Hang\<close>.
\<close>

partial_function (option) lzw_codes_opt :: "mem \<Rightarrow> lzw \<Rightarrow> lzw flow option" where
  "lzw_codes_opt d s =
     (if bszc s \<ge> 0 then
        case lzw_code d s of
          Next s' \<Rightarrow> lzw_codes_opt d s'
        | r \<Rightarrow> Some r
      else Some (Next s))"

declare lzw_codes_opt.simps [code]

definition lzw_codes :: "mem \<Rightarrow> lzw \<Rightarrow> lzw flow" where
  "lzw_codes d s = (case lzw_codes_opt d s of None \<Rightarrow> Abort Hang | Some r \<Rightarrow> r)"

text \<open>
  Lines 130 to 134: the next 16 bits of the sub-block are loaded. The two shift counts
  \<^verbatim>\<open>ccsz + bszc\<close> and \<^verbatim>\<open>-bszc\<close> are never negative there.
\<close>

definition fetch :: "mem \<Rightarrow> lzw \<Rightarrow> lzw" where
  "fetch d s =
     (let s1 = s\<lparr>load := (le16 d (buff s)
                         AND (if bseq s < 2 then 2 ^ (8 * nat (bseq s)) - 1 else 0xFFFFFFFF))
                        mod 65536\<rparr>;
          s2 = s1\<lparr>curr := curr s1 OR push_bit (nat (int (ccsz s1) + bszc s1)) (load s1)\<rparr>;
          s3 = s2\<lparr>load := drop_bit (nat (- bszc s2)) (load s2) mod 65536\<rparr>
      in s3\<lparr>bszc := bszc s3 + 8 * (if bseq s3 < 2 then bseq s3 else 2)\<rparr>)"


text \<open>
  The loops below end because \<open>bseq\<close> and \<open>sz\<close> go down; what the termination proofs
  need is that decoding codes changes neither of them.
\<close>

lemma expand_keeps:
  "expand s = Next s' \<Longrightarrow>
     bseq s' = bseq s \<and> sz s' = sz s \<and> buff s' = buff s \<and> ccsz s' = ccsz s \<and>
     bszc s' = bszc s \<and> ctsz s' = ctsz s \<and> rlen s' = rlen s \<and> code s' = code s"
proof (induction s rule: expand.induct)
  case (1 s)
  from "1.prems" have ok: "\<not> 4096 \<le> iter s" "\<not> (bptr s < 0 \<or> int (rlen s) \<le> bptr s)"
    by (subst (asm) expand.simps, simp split: if_splits)+
  define s1 where "s1 = s\<lparr>ras := (ras s)(nat (bptr s) := ucast (drop_bit 24 (code s (iter s)))),
                   bptr := bptr s - 1\<rparr>"
  show ?case
  proof (cases "code s1 (iter s1) AND 0xFFF000 = 0")
    case True
    with "1.prems" ok have "s' = s1"
      by (subst (asm) expand.simps) (simp add: Let_def s1_def)
    then show ?thesis by (simp add: s1_def)
  next
    case False
    with "1.prems" ok have "expand (s1\<lparr>iter := unat (code s1 (iter s1) AND 0xFFF)\<rparr>) = Next s'"
      by (subst (asm) expand.simps) (simp add: Let_def s1_def)
    from "1.IH"[OF ok s1_def False this] show ?thesis by (simp add: s1_def)
  qed
qed

lemma append_entry_keeps:
  "append_entry s = Next s' \<Longrightarrow>
     bseq s' = bseq s \<and> sz s' = sz s \<and> buff s' = buff s \<and>
     bszc s' = bszc s \<and> ctsz s' = ctsz s \<and> rlen s' = rlen s"
  by (auto simp: append_entry_def Let_def split: if_splits)

lemma emit_pixels_keeps:
  "emit_pixels s = Next s' \<Longrightarrow>
     bseq s' = bseq s \<and> sz s' = sz s \<and> buff s' = buff s \<and>
     bszc s' = bszc s \<and> ctsz s' = ctsz s \<and> rlen s' = rlen s"
  by (auto simp: emit_pixels_def Let_def split: if_splits flow.splits dest!: expand_keeps)

lemma patch_entry_keeps:
  "patch_entry s = Next s' \<Longrightarrow>
     bseq s' = bseq s \<and> sz s' = sz s \<and> buff s' = buff s \<and>
     bszc s' = bszc s \<and> ctsz s' = ctsz s \<and> rlen s' = rlen s"
  by (auto simp: patch_entry_def Let_def split: if_splits)

lemma lzw_code_keeps:
  "lzw_code d s = Next s' \<Longrightarrow>
     bseq s' = bseq s \<and> sz s' = sz s \<and> buff s' = buff s \<and>
     bszc s' = bszc s - int (ccsz s') \<and> ctsz s' = ctsz s \<and> rlen s' = rlen s"
  by (auto simp: lzw_code_def next_code_def Let_def
      split: if_splits flow.splits dest!: append_entry_keeps emit_pixels_keeps patch_entry_keeps)

lemma lzw_codes_opt_keeps:
  "lzw_codes_opt d s = Some r \<Longrightarrow> r = Next s' \<Longrightarrow>
     bseq s' = bseq s \<and> sz s' = sz s \<and> buff s' = buff s \<and> ctsz s' = ctsz s \<and> rlen s' = rlen s"
proof (induction d s r arbitrary: s' rule: lzw_codes_opt.raw_induct[rotated 1, consumes 1])
  case (1 f d s r)
  then show ?case
    by (auto split: if_splits flow.splits dest!: lzw_code_keeps)
qed

lemma lzw_codes_keeps:
  "lzw_codes d s = Next s' \<Longrightarrow>
     bseq s' = bseq s \<and> sz s' = sz s \<and> buff s' = buff s \<and> ctsz s' = ctsz s \<and> rlen s' = rlen s"
  by (auto simp: lzw_codes_def split: option.splits dest: lzw_codes_opt_keeps)

lemma fetch_keeps [simp]:
  "bseq (fetch d s) = bseq s" "sz (fetch d s) = sz s" "buff (fetch d s) = buff s"
  "ctsz (fetch d s) = ctsz s" "rlen (fetch d s) = rlen s" "ccsz (fetch d s) = ccsz s"
  "msk (fetch d s) = msk s" "prev (fetch d s) = prev s" "code (fetch d s) = code s"
  "ras (fetch d s) = ras s" "ctbl (fetch d s) = ctbl s"
  by (simp_all add: fetch_def Let_def)

text \<open>
  The loop \<^verbatim>\<open>for (; bseq > 0; bseq -= GIF_HLEN, *buff += GIF_HLEN)\<close> over one sub-block
  (lines 129 to 178).
\<close>

function lzw_block :: "mem \<Rightarrow> lzw \<Rightarrow> lzw flow" where
  "lzw_block d s =
     (if bseq s > 0 then
        case lzw_codes d (fetch d s) of
          Next s' \<Rightarrow> lzw_block d (s'\<lparr>bseq := bseq s' - 2, buff := buff s' + 2\<rparr>)
        | r \<Rightarrow> r
      else Next s)"
  by pat_completeness auto
termination
proof (relation "measure (\<lambda>(d, s). nat (bseq s))")
  fix d s s'
  assume "0 < bseq s" "lzw_codes d (fetch d s) = Next s'"
  then have "bseq s' = bseq s \<and> 0 < bseq s" using lzw_codes_keeps[of d "fetch d s" s'] by simp
  then show "((d, s'\<lparr>bseq := bseq s' - 2, buff := buff s' + 2\<rparr>), (d, s))
               \<in> measure (\<lambda>(d, s). nat (bseq s))" by simp
qed simp

declare lzw_block.simps [simp del]

lemma lzw_block_keeps:
  "lzw_block d s = Next s' \<Longrightarrow> sz s' = sz s \<and> ctsz s' = ctsz s \<and> rlen s' = rlen s"
proof (induction d s rule: lzw_block.induct)
  case (1 d s)
  show ?case
  proof (cases "bseq s > 0")
    case True
    with "1.prems" obtain s1 where s1: "lzw_codes d (fetch d s) = Next s1"
      and rec: "lzw_block d (s1\<lparr>bseq := bseq s1 - 2, buff := buff s1 + 2\<rparr>) = Next s'"
      by (subst (asm) lzw_block.simps) (auto split: flow.splits)
    from "1.IH"[OF True s1 rec] lzw_codes_keeps[OF s1] show ?thesis by simp
  next
    case False
    with "1.prems" show ?thesis by (subst (asm) lzw_block.simps) simp
  qed
qed

text \<open>
  The loop \<^verbatim>\<open>do ... while ((bseq = *(*buff)++))\<close> over the sub-blocks (lines 126 to 182).
  On entry \<open>bseq\<close> is the length of the sub-block at \<open>buff\<close>. The result is the return
  value of \<^verbatim>\<open>_GIF_LoadFrame\<close> with the final state.
\<close>

function lzw_blocks :: "mem \<Rightarrow> lzw \<Rightarrow> abort + int \<times> lzw" where
  "lzw_blocks d s =
     (let s1 = s\<lparr>sz := sz s - (bseq s + 1)\<rparr>
      in if sz s1 \<le> 0 then Inr (- 5, s1)
         else
           case lzw_block d s1 of
             Next s2 \<Rightarrow>
               let s3 = s2\<lparr>buff := nat (int (buff s2) + bseq s2)\<rparr>;
                   s4 = s3\<lparr>bseq := int (unat (d (buff s3))), buff := buff s3 + 1\<rparr>
               in if bseq s4 \<noteq> 0 then lzw_blocks d s4
                  else Inr (0, s4\<lparr>sz := sz s4 - 1\<rparr>)
           | Return r s2 \<Rightarrow> Inr (r, s2)
           | Abort a \<Rightarrow> Inl a)"
  by pat_completeness auto
termination
proof (relation "measure (\<lambda>(d, s). nat (sz s - (bseq s + 1)))")
  fix d s s1 s2 s3 s4
  assume a: "s1 = s\<lparr>sz := sz s - (bseq s + 1)\<rparr>" "\<not> sz s1 \<le> 0" "lzw_block d s1 = Next s2"
    "s3 = s2\<lparr>buff := nat (int (buff s2) + bseq s2)\<rparr>"
    "s4 = s3\<lparr>bseq := int (unat (d (buff s3))), buff := buff s3 + 1\<rparr>"
  from lzw_block_keeps[OF a(3)] a have "sz s4 = sz s - (bseq s + 1)" "0 < sz s4" "0 \<le> bseq s4"
    by simp_all
  then show "((d, s4), (d, s)) \<in> measure (\<lambda>(d, s). nat (sz s - (bseq s + 1)))"
    by simp
qed simp

declare lzw_blocks.simps [simp del]

text \<open>
  \<^verbatim>\<open>_GIF_LoadFrame(buff, size, bptr)\<close>, called with the cursor at the byte of the minimum
  code size, the remaining size, and the allocation that \<^verbatim>\<open>bptr\<close> points into (its
  dictionary scratch \<open>code0\<close>, its raster \<open>ras0\<close> of \<open>rlen0\<close> bytes); \<^verbatim>\<open>bptr\<close> itself is
  the start of the raster, offset 0. The locals that C leaves uninitialised are 0 here;
  each is assigned before it is read. In line 115 a minimum code size above 30 makes
  the shift undefined in C; the mask is not used before line 118 has returned -3.
\<close>

definition GIF_LoadFrame ::
  "mem \<Rightarrow> nat \<Rightarrow> int \<Rightarrow> (nat \<Rightarrow> u32) \<Rightarrow> (nat \<Rightarrow> u8) \<Rightarrow> nat \<Rightarrow> abort + int \<times> lzw" where
  "GIF_LoadFrame d buff0 sz0 code0 ras0 rlen0 =
     (let s = \<lparr>buff = buff0, sz = sz0 - 1, bptr = 0, load = 0, msk = 0, iter = 0, ctbl = 0,
                curr = 0, prev = 0, ctsz = 0, ccsz = 0, bseq = 0, bszc = 0,
                code = code0, ras = ras0, rlen = rlen0\<rparr>
      in if sz s \<le> 2 then Inr (- 5, s)
         else
           let s1 = s\<lparr>ctsz := unat (d (buff s)), buff := buff s + 1\<rparr>;
               s2 = s1\<lparr>ccsz := ctsz s1 + 1, msk := mask_of (ctsz s1 + 1)\<rparr>;
               s3 = s2\<lparr>bseq := int (unat (d (buff s2))), buff := buff s2 + 1\<rparr>
           in if bseq s3 = 0 then Inr (- 4, s3)
              else if ctsz s3 < 2 \<or> ctsz s3 > 8 then Inr (- 3, s3)
              else
                let s4 = s3\<lparr>ctbl := 2 ^ ctsz s3, curr := msk s3 AND le16 d (buff s3)\<rparr>
                in if ctbl s4 \<noteq> curr s4 then Inr (- 2, s4)
                   else lzw_blocks d
                          (s4\<lparr>bszc := - int (ccsz s4), prev := 0, iter := ctbl s4,
                              code := (\<lambda>i. if i < ctbl s4 then push_bit 24 (word_of_nat i)
                                            else code s4 i)\<rparr>))"


section \<open>Sizes only go down\<close>

text \<open>
  Each of the three internal functions leaves the remaining size no larger than it was;
  the loops of \<^verbatim>\<open>GIF_Load\<close> end for that reason.
\<close>

lemma SkipChunk_loop_size:
  "SkipChunk_loop d p n = (True, p', n') \<Longrightarrow> 0 < n' \<and> n' < n"
proof (induction d p n rule: SkipChunk_loop.induct)
  case (1 d p n)
  let ?skip = "1 + unat (d p)"
  from "1.prems" have pos: "\<not> n - int ?skip \<le> 0"
    by (subst (asm) SkipChunk_loop.simps) (auto simp: Let_def split: if_splits)
  show ?case
  proof (cases "?skip > 1")
    case True
    with pos "1.prems" have "SkipChunk_loop d (p + ?skip) (n - int ?skip) = (True, p', n')"
      by (subst (asm) SkipChunk_loop.simps) (simp add: Let_def)
    from "1.IH"[OF refl refl refl pos True this] show ?thesis by linarith
  next
    case False
    then have "d p = 0" by (simp add: unat_eq_0)
    with pos "1.prems" have "n' = n - int ?skip"
      by (subst (asm) SkipChunk_loop.simps) (simp add: Let_def)
    with pos show ?thesis by linarith
  qed
qed

lemma GIF_SkipChunk_size:
  "GIF_SkipChunk d p n = (True, p', n') \<Longrightarrow> 0 < n' \<and> n' < n"
  by (auto simp: GIF_SkipChunk_def Let_def split: if_splits dest!: SkipChunk_loop_size)

lemma GIF_LoadFrameHdr_size:
  "GIF_LoadFrameHdr p n flen gflg fflg rpal = (r, p', n', rpal') \<Longrightarrow> n' \<le> n"
proof -
  have "0 \<le> int (2 * 2 ^ unat (fflg AND 7) * 3)" by simp
  moreover assume "GIF_LoadFrameHdr p n flen gflg fflg rpal = (r, p', n', rpal')"
  ultimately show ?thesis
    by (auto simp: GIF_LoadFrameHdr_def Let_def simp del: of_nat_mult of_nat_power split: if_splits)
qed

lemma expand_no_Return: "expand s \<noteq> Return r s'"
proof (induction s rule: expand.induct)
  case (1 s)
  show ?case
    by (subst expand.simps) (use "1.IH" in \<open>auto simp: Let_def\<close>)
qed

lemma lzw_code_Return: "lzw_code d s = Return r s' \<Longrightarrow> sz s' = sz s - 1"
  by (auto simp: lzw_code_def append_entry_def emit_pixels_def patch_entry_def Let_def expand_no_Return
      split: if_splits flow.splits)

lemma lzw_codes_opt_Return:
  "lzw_codes_opt d s = Some x \<Longrightarrow> x = Return r s' \<Longrightarrow> sz s' = sz s - 1"
proof (induction d s x arbitrary: r s' rule: lzw_codes_opt.raw_induct[rotated 1, consumes 1])
  case (1 f d s x)
  then show ?case
    by (auto split: if_splits flow.splits dest: lzw_code_keeps lzw_code_Return)
qed

lemma lzw_codes_Return: "lzw_codes d s = Return r s' \<Longrightarrow> sz s' = sz s - 1"
  by (auto simp: lzw_codes_def split: option.splits dest: lzw_codes_opt_Return)

lemma lzw_block_Return: "lzw_block d s = Return r s' \<Longrightarrow> sz s' = sz s - 1"
proof (induction d s rule: lzw_block.induct)
  case (1 d s)
  from "1.prems" have pos: "bseq s > 0"
    by (subst (asm) lzw_block.simps) (simp split: if_splits)
  show ?case
  proof (cases "lzw_codes d (fetch d s)")
    case (Next s1)
    with pos "1.prems" have "lzw_block d (s1\<lparr>bseq := bseq s1 - 2, buff := buff s1 + 2\<rparr>) = Return r s'"
      by (subst (asm) lzw_block.simps) simp
    from "1.IH"[OF pos Next this] lzw_codes_keeps[OF Next] show ?thesis by simp
  next
    case (Return r1 s1)
    with pos "1.prems" have "r1 = r" "s1 = s'"
      by (subst (asm) lzw_block.simps, simp)+
    with lzw_codes_Return[OF Return] show ?thesis by simp
  next
    case (Abort a)
    with pos "1.prems" show ?thesis by (subst (asm) lzw_block.simps) simp
  qed
qed

lemma lzw_blocks_size:
  "lzw_blocks d s = Inr (r, s') \<Longrightarrow> 0 \<le> bseq s \<Longrightarrow> sz s' < sz s"
proof (induction d s rule: lzw_blocks.induct)
  case (1 d s)
  define s1 where "s1 = s\<lparr>sz := sz s - (bseq s + 1)\<rparr>"
  show ?case
  proof (cases "sz s1 \<le> 0")
    case True
    with "1.prems" show ?thesis
      by (subst (asm) lzw_blocks.simps) (auto simp: Let_def s1_def)
  next
    case False
    note pos = this
    show ?thesis
    proof (cases "lzw_block d s1")
      case (Next s2)
      define s3 where "s3 = s2\<lparr>buff := nat (int (buff s2) + bseq s2)\<rparr>"
      define s4 where "s4 = s3\<lparr>bseq := int (unat (d (buff s3))), buff := buff s3 + 1\<rparr>"
      have sz4: "sz s4 = sz s1" using lzw_block_keeps[OF Next] by (simp add: s4_def s3_def)
      show ?thesis
      proof (cases "bseq s4 \<noteq> 0")
        case True
        with pos Next "1.prems"(1) have "lzw_blocks d s4 = Inr (r, s')"
          by (subst (asm) lzw_blocks.simps) (simp add: Let_def s1_def s3_def s4_def)
        from "1.IH"[OF s1_def pos Next s3_def s4_def True this] have "sz s' < sz s4"
          by (simp add: s4_def)
        with sz4 "1.prems"(2) show ?thesis by (simp add: s1_def)
      next
        case False
        with pos Next "1.prems"(1) have "s' = s4\<lparr>sz := sz s4 - 1\<rparr>"
          by (subst (asm) lzw_blocks.simps) (simp add: Let_def s1_def s3_def s4_def)
        with sz4 "1.prems"(2) show ?thesis by (simp add: s1_def)
      qed
    next
      case (Return r1 s2)
      with pos "1.prems"(1) have "s2 = s'"
        by (subst (asm) lzw_blocks.simps) (simp add: Let_def s1_def)
      with lzw_block_Return[OF Return] "1.prems"(2) show ?thesis by (simp add: s1_def)
    next
      case (Abort a)
      with pos "1.prems"(1) show ?thesis
        by (subst (asm) lzw_blocks.simps) (simp add: Let_def s1_def)
    qed
  qed
qed

lemma GIF_LoadFrame_size:
  "GIF_LoadFrame d buff0 sz0 code0 ras0 rlen0 = Inr (r, s) \<Longrightarrow> sz s < sz0"
  unfolding GIF_LoadFrame_def Let_def
  by (auto split: if_splits dest!: lzw_blocks_size)


section \<open>\<^verbatim>\<open>GIF_Load\<close>\<close>

text \<open>
  \<^verbatim>\<open>GIF_WHDR\<close> without \<^verbatim>\<open>bptr\<close>, which the events below carry. \<open>cpal\<close> is an offset into
  the input (\<open>None\<close> for a null pointer).
\<close>

record GIF_WHDR =
  xdim :: int
  ydim :: int
  clrs :: int
  bkgd :: int
  tran :: int
  intr :: int
  mode :: int
  frxd :: int
  fryd :: int
  frxo :: int
  fryo :: int
  time :: int
  ifrm :: int
  nfrm :: int
  cpal :: "nat option"

text \<open>
  What a call does besides returning a value, in order. \<open>Alloc n\<close> and \<open>Free n\<close>:
  \<^verbatim>\<open>GIF_MGET\<close> with \<^verbatim>\<open>c = 1\<close> and \<^verbatim>\<open>c = 0\<close> and size \<open>n\<close>. \<open>Frame w r\<close>: \<^verbatim>\<open>gwfr\<close> called
  with the descriptor \<open>w\<close> whose \<^verbatim>\<open>bptr\<close> points to the raster \<open>r\<close>. \<open>Meta w p\<close>: \<^verbatim>\<open>amdf\<close>
  called with the descriptor \<open>w\<close> whose \<^verbatim>\<open>bptr\<close> is the input offset \<open>p\<close>. \<open>Gce p\<close> is not a
  call: it records that line 320 has set \<^verbatim>\<open>fgch\<close> to the input offset \<open>p\<close>.
\<close>

datatype event =
    Alloc int
  | Free int
  | Gce nat
  | Meta GIF_WHDR nat
  | Frame GIF_WHDR "nat \<Rightarrow> u8"

text \<open>
  The frame counting loop (lines 271 to 282), from the cursor \<open>p\<close> (\<^verbatim>\<open>whdr.bptr\<close>) with
  \<open>blen\<close> bytes left, \<open>cnt\<close> frames counted (\<^verbatim>\<open>whdr.ifrm\<close>) and \<^verbatim>\<open>whdr.cpal = pal\<close>. The
  result is the last \<^verbatim>\<open>desc\<close>, the count and \<^verbatim>\<open>whdr.cpal\<close>.
\<close>

function count_loop ::
  "mem \<Rightarrow> u8 \<Rightarrow> nat \<Rightarrow> int \<Rightarrow> int \<Rightarrow> nat option \<Rightarrow> u8 \<times> int \<times> nat option" where
  "count_loop d gflg p blen cnt pal =
     (let desc = d p;
          p1 = p + 1
      in if desc = 0x3B then (desc, cnt, pal)
         else
           let blen1 = blen - 1
           in if desc = 0x2C then
                case GIF_LoadFrameHdr p1 blen1 9 gflg (d (p1 + 8)) pal of
                  (r, p2, blen2, pal2) \<Rightarrow>
                    if r \<le> 0 then (desc, cnt, pal2)
                    else
                      case GIF_SkipChunk d p2 blen2 of
                        (ok, p3, blen3) \<Rightarrow>
                          if ok then count_loop d gflg p3 blen3 (cnt + 1) pal2
                          else (desc, cnt + 1, pal2)
              else
                case GIF_SkipChunk d p1 blen1 of
                  (ok, p3, blen3) \<Rightarrow>
                    if ok then count_loop d gflg p3 blen3 cnt pal
                    else (desc, cnt, pal))"
  by pat_completeness auto
termination
proof (relation "measure (\<lambda>(d, gflg, p, blen, cnt, pal). nat blen)", goal_cases)
  case 1
  show ?case by simp
next
  case (2 d gflg p blen cnt pal x xa xb xc y xaa ya xab yb xac yc xad yd)
  then have "GIF_LoadFrameHdr xa xb 9 gflg (d (xa + 8)) pal = (xc, xaa, xab, yb)"
    "GIF_SkipChunk d xaa xab = (True, xad, yd)" by simp_all
  from GIF_LoadFrameHdr_size[OF this(1)] GIF_SkipChunk_size[OF this(2)] 2(4)
  show ?case by simp
next
  case (3 d gflg p blen cnt pal x xa xb xc y xaa ya)
  then have "GIF_SkipChunk d xa xb = (True, xaa, ya)" by simp
  from GIF_SkipChunk_size[OF this] 3(4) show ?case by simp
qed

declare count_loop.simps [simp del]

text \<open>
  The state of the frame extraction loop: \<open>xbuff\<close> and \<open>xsize\<close> are \<^verbatim>\<open>buff\<close> and \<^verbatim>\<open>size\<close>,
  \<open>fgch\<close> is the pointer to the remembered graphics control extension, \<open>dict\<close> and \<open>rast\<close>
  are the two parts of the allocation, \<open>trace\<close> is what has happened so far.
\<close>

record xstate =
  xbuff :: nat
  xsize :: int
  whdr :: GIF_WHDR
  fgch :: "nat option"
  dict :: "nat \<Rightarrow> u32"
  rast :: "nat \<Rightarrow> u8"
  trace :: "event list"

text \<open>Line 307: \<^verbatim>\<open>size = -(whdr.ifrm--)\<close>.\<close>

definition frame_failed :: "xstate \<Rightarrow> xstate" where
  "frame_failed st =
     st\<lparr>xsize := - ifrm (whdr st), whdr := (whdr st)\<lparr>ifrm := ifrm (whdr st) - 1\<rparr>\<rparr>"

text \<open>
  Lines 293 to 314, for a state whose cursor is just past the tag 0x2C: the frame header
  is read and, from frame \<open>skip\<close> on, the frame is decoded and passed to \<^verbatim>\<open>gwfr\<close>.
  The global palette \<^verbatim>\<open>ghdr + 1\<close> is at offset 13.
\<close>

definition frame_block :: "mem \<Rightarrow> u8 \<Rightarrow> nat \<Rightarrow> nat \<Rightarrow> xstate \<Rightarrow> abort + xstate" where
  "frame_block d gflg skip rlen0 st =
     (let fhdr = xbuff st;
          w = (whdr st)\<lparr>frxd := int (le16 d (fhdr + 4)), fryd := int (le16 d (fhdr + 6)),
                          frxo := int (le16 d fhdr), fryo := int (le16 d (fhdr + 2)),
                          intr := (if d (fhdr + 8) AND 0x40 \<noteq> 0 then 1 else 0),
                          cpal := Some 13\<rparr>
      in case GIF_LoadFrameHdr (xbuff st) (xsize st) 9 gflg (d (fhdr + 8)) (cpal w) of
           (r, p, n, pal) \<Rightarrow>
             let w1 = w\<lparr>cpal := pal, clrs := r,
                        mode := (case fgch st of
                                   None \<Rightarrow> 0
                                 | Some g \<Rightarrow> if d g AND 0x10 = 0
                                             then int (unat (drop_bit 2 (d g AND 0x0C)))
                                             else 0),
                        ifrm := ifrm w + 1\<rparr>;
                 st1 = st\<lparr>xbuff := p, xsize := n, whdr := w1\<rparr>
             in if ifrm w1 \<ge> int skip then
                  if clrs w1 \<le> 0 then Inr (frame_failed st1)
                  else
                    case GIF_LoadFrame d p n (dict st1) (rast st1) rlen0 of
                      Inl a \<Rightarrow> Inl a
                    | Inr (ret, s) \<Rightarrow>
                        let st2 = st1\<lparr>xbuff := buff s, xsize := sz s,
                                       dict := code s, rast := ras s\<rparr>
                        in if ret < 0 then Inr (frame_failed st2)
                           else
                             let w2 = w1\<lparr>time := (case fgch st2 of
                                                      None \<Rightarrow> 0
                                                    | Some g \<Rightarrow> int (le16 d (g + 1))),
                                         tran := (case fgch st2 of
                                                      None \<Rightarrow> - 1
                                                    | Some g \<Rightarrow> if d g AND 0x01 \<noteq> 0
                                                                then int (unat (d (g + 3)))
                                                                else - 1)\<rparr>
                             in Inr (st2\<lparr>whdr := w2,
                                         trace := trace st2 @ [Frame w2 (rast st2)]\<rparr>)
                else Inr st1)"

text \<open>
  Lines 319 to 325, for a state whose cursor is just past the tag 0x21, at the label.
  \<open>amdf\<close> says whether a metadata reader was passed.
\<close>

definition ext_block :: "mem \<Rightarrow> bool \<Rightarrow> xstate \<Rightarrow> xstate" where
  "ext_block d amdf st =
     (if d (xbuff st) = 0xF9
      then st\<lparr>fgch := Some (xbuff st + 1 + 1), trace := trace st @ [Gce (xbuff st + 1 + 1)]\<rparr>
      else if d (xbuff st) = 0xFF \<and> amdf
      then st\<lparr>trace := trace st @ [Meta (whdr st) (xbuff st + 1 + 1)]\<rparr>
      else st)"

lemma frame_block_size:
  assumes "frame_block d gflg skip rlen0 st = Inr st'"
  shows "xsize st' \<le> xsize st \<or> (xsize st' \<le> 0 \<and> int skip \<le> ifrm (whdr st') + 1)"
proof -
  obtain r p n pal where h: "GIF_LoadFrameHdr (xbuff st) (xsize st) 9 gflg (d (xbuff st + 8)) (Some 13) = (r, p, n, pal)"
    by (cases "GIF_LoadFrameHdr (xbuff st) (xsize st) 9 gflg (d (xbuff st + 8)) (Some 13)") auto
  from GIF_LoadFrameHdr_size[OF h] have n: "n \<le> xsize st" .
  from assms h n show ?thesis
    by (auto simp: frame_block_def Let_def frame_failed_def
        split: if_splits sum.splits prod.splits dest!: GIF_LoadFrame_size)
qed

lemma ext_block_size [simp]: "xsize (ext_block d amdf st) = xsize st"
  by (simp add: ext_block_def)

text \<open>
  Lines 291 to 326: the tag at the cursor is consumed and its block is handled, before
  the chain of the block is skipped.
\<close>

definition next_block :: "mem \<Rightarrow> bool \<Rightarrow> u8 \<Rightarrow> nat \<Rightarrow> nat \<Rightarrow> xstate \<Rightarrow> abort + xstate" where
  "next_block d amdf gflg skip rlen0 st =
     (let desc = d (xbuff st);
          st1 = st\<lparr>xsize := xsize st - 1, xbuff := xbuff st + 1\<rparr>
      in if desc = 0x2C then frame_block d gflg skip rlen0 st1
         else if desc = 0x21 then Inr (ext_block d amdf st1)
         else Inr st1)"

lemma next_block_size:
  assumes "next_block d amdf gflg skip rlen0 st = Inr st'"
  shows "xsize st' < xsize st \<or> (xsize st' \<le> 0 \<and> int skip \<le> ifrm (whdr st') + 1)"
proof (cases "d (xbuff st) = 0x2C")
  case True
  with assms have "frame_block d gflg skip rlen0 (st\<lparr>xsize := xsize st - 1, xbuff := xbuff st + 1\<rparr>) = Inr st'"
    by (simp add: next_block_def)
  from frame_block_size[OF this] show ?thesis by auto
next
  case False
  with assms show ?thesis by (auto simp: next_block_def Let_def split: if_splits)
qed

text \<open>
  The frame extraction loop (lines 290 to 329). \<open>skip\<close> is a natural number here:
  line 259 has returned for a negative one. After a frame that was decoded with bytes
  left, the loop goes on at once (\<^verbatim>\<open>continue\<close>); otherwise it ends at the ending mark
  0x3B or skips the chain of the block.
\<close>

function extract_loop :: "mem \<Rightarrow> bool \<Rightarrow> u8 \<Rightarrow> nat \<Rightarrow> nat \<Rightarrow> xstate \<Rightarrow> abort + xstate" where
  "extract_loop d amdf gflg skip rlen0 st =
     (if int skip < \<bar>nfrm (whdr st)\<bar> then
        case next_block d amdf gflg skip rlen0 st of
          Inl a \<Rightarrow> Inl a
        | Inr st2 \<Rightarrow>
            if d (xbuff st) = 0x2C \<and> ifrm (whdr st2) \<ge> int skip \<and> xsize st2 > 0
            then extract_loop d amdf gflg skip rlen0 st2
            else if d (xbuff st) = 0x3B then Inr st2
            else
              case GIF_SkipChunk d (xbuff st2) (xsize st2) of
                (ok, p, n) \<Rightarrow>
                  if ok then extract_loop d amdf gflg skip rlen0 (st2\<lparr>xbuff := p, xsize := n\<rparr>)
                  else Inr (st2\<lparr>xbuff := p, xsize := n\<rparr>)
      else Inr st)"
  by pat_completeness auto
termination
proof (relation "measure (\<lambda>(d, amdf, gflg, skip, rlen0, st). nat (xsize st))", goal_cases)
  case 1
  show ?case by simp
next
  case (2 d amdf gflg skip rlen0 st st2)
  from next_block_size[OF 2(2)] 2(3) have "xsize st2 < xsize st \<and> 0 < xsize st2" by auto
  then show ?case by simp
next
  case (3 d amdf gflg skip rlen0 st st2 x y p n)
  then have sk: "GIF_SkipChunk d (xbuff st2) (xsize st2) = (True, p, n)" by simp
  from next_block_size[OF 3(2)] GIF_SkipChunk_size[OF sk] have "n < xsize st \<and> 0 < n" by auto
  then show ?case by simp
qed

declare extract_loop.simps [simp del]

text \<open>
  \<^verbatim>\<open>GIF_Load(data, size, gwfr, amdf, anim, skip)\<close>. \<open>d\<close> is the memory at \<^verbatim>\<open>data\<close>, which is
  not null; \<open>amdf\<close> says whether a metadata reader was passed; \<open>code0\<close> and \<open>ras0\<close> are
  the contents of the block that \<^verbatim>\<open>GIF_MGET\<close> returns (the allocation is assumed to
  succeed, as the C code assumes). The result is the return value with the trace
  of the call, unless the call is aborted.
\<close>

definition GIF_Load ::
  "mem \<Rightarrow> int \<Rightarrow> bool \<Rightarrow> int \<Rightarrow> (nat \<Rightarrow> u32) \<Rightarrow> (nat \<Rightarrow> u8) \<Rightarrow> abort + int \<times> event list" where
  "GIF_Load d size0 amdf skip code0 ras0 =
     (if size0 \<le> 13 \<or> d 0 \<noteq> 71 \<or> d 1 \<noteq> 73 \<or> d 2 \<noteq> 70 \<or> d 3 \<noteq> 56 \<or> skip < 0
         \<or> (d 4 \<noteq> 55 \<and> d 4 \<noteq> 57) \<or> d 5 \<noteq> 97
      then Inr (0, [])
      else
        let gflg = d 10;
            p = 13 + 3 * nat (fst (GIF_LoadFrameHdr 0 0 0 gflg 0 None));
            size1 = size0 - int p
        in if size1 \<le> 0 then Inr (0, [])
           else
             case count_loop d gflg p size1 0 None of
               (desc, cnt, pal) \<Rightarrow>
                 let w = \<lparr>xdim = int (le16 d 6), ydim = int (le16 d 8), clrs = 0,
                          bkgd = int (unat (d 11)), tran = 0, intr = 0, mode = 0,
                          frxd = 0, fryd = 0, frxo = 0, fryo = 0, time = 0, ifrm = - 1,
                          nfrm = (if desc = 0x3B then cnt else - cnt), cpal = pal\<rparr>;
                     blen = xdim w * ydim w + 16384
                 in case extract_loop d amdf gflg (nat skip) (nat (xdim w * ydim w))
                           \<lparr>xbuff = p, xsize = size1, whdr = w, fgch = None,
                            dict = code0, rast = ras0, trace = [Alloc blen]\<rparr> of
                      Inl a \<Rightarrow> Inl a
                    | Inr st \<Rightarrow>
                        Inr (if nfrm w < 0 then - ifrm (whdr st) - 1 + skip
                             else ifrm (whdr st) + 1,
                             trace st @ [Free blen]))"

section \<open>Test inputs\<close>

text \<open>A byte list as memory; the bytes past its end are 0.\<close>

definition bytes :: "u8 list \<Rightarrow> mem" where
  "bytes xs i = (if i < length xs then xs ! i else 0)"

text \<open>
  The smallest image: the header of a 1 by 1 screen with a global palette of two
  colours, one frame of one pixel of colour 0 (minimum code size 2; the codes clear,
  0, stop in one sub-block of two bytes), and the ending mark. 35 bytes.
\<close>

definition gif1 :: "u8 list" where
  "gif1 = [71,73,70,56,57,97, 1,0, 1,0, 0x80, 0, 0,  0,0,0, 255,255,255,
           0x2C, 0,0, 0,0, 1,0, 1,0, 0,  2, 2, 0x44, 0x01, 0, 0x3B]"





text \<open>The descriptor that \<^verbatim>\<open>gwfr\<close> gets for such a frame, with its index and the frame count.\<close>

definition frame1 :: "int \<Rightarrow> int \<Rightarrow> GIF_WHDR" where
  "frame1 i nf = \<lparr>xdim = 1, ydim = 1, clrs = 2, bkgd = 0, tran = - 1, intr = 0, mode = 0,
             frxd = 1, fryd = 1, frxo = 0, fryo = 0, time = 0, ifrm = i, nfrm = nf,
             cpal = Some 13\<rparr>"







text \<open>The equations that evaluate the decoder on such inputs.\<close>

lemmas lzw_eval = GIF_LoadFrame_def lzw_blocks.simps lzw_block.simps lzw_codes_def
  lzw_codes_opt.simps lzw_code_def append_entry_def emit_pixels_def patch_entry_def
  next_code_def fetch_def expand.simps mask_of_def le16_def Let_def

lemmas load_eval = GIF_Load_def count_loop.simps extract_loop.simps next_block_def
  frame_block_def ext_block_def frame_failed_def GIF_LoadFrameHdr_def GIF_SkipChunk_def
  SkipChunk_loop.simps


section \<open>The chunk skipper against its description\<close>

text \<open>
  The description of the chunk skipper, in its words: one byte is consumed, then each
  sub-block is a length byte \<open>L\<close> and \<open>L\<close> data bytes, a zero length ends the chain, and
  the walk fails when an advance would exceed the remaining bytes. The result is the
  cursor one past the zero-length terminator, or \<open>None\<close> for insufficient data.
\<close>

function chain_spec :: "mem \<Rightarrow> nat \<Rightarrow> int \<Rightarrow> nat option" where
  "chain_spec d p rem =
     (let adv = 1 + unat (d p)
      in if int adv > rem then None
         else if adv = 1 then Some (p + 1)
         else chain_spec d (p + adv) (rem - int adv))"
  by pat_completeness auto
termination
proof (relation "measure (\<lambda>(d, p, rem). nat rem)")
  fix d :: mem and p :: nat and rem :: int and x
  assume "x = 1 + unat (d p)" "\<not> rem < int x" "x \<noteq> 1"
  then have "0 < rem \<and> rem - int x < rem" by linarith
  then show "((d, p + x, rem - int x), (d, p, rem)) \<in> measure (\<lambda>(d, p, rem). nat rem)" by simp
qed simp

declare chain_spec.simps [simp del]

definition SkipChunk_spec :: "mem \<Rightarrow> nat \<Rightarrow> int \<Rightarrow> nat option" where
  "SkipChunk_spec d p rem = (if 1 > rem then None else chain_spec d (p + 1) (rem - 1))"

text \<open>
  The same walk, failing as soon as an advance would use up the remaining bytes or
  exceed them: at least one byte has to be left after the chain.
\<close>

function chain_walk :: "mem \<Rightarrow> nat \<Rightarrow> int \<Rightarrow> nat option" where
  "chain_walk d p rem =
     (let adv = 1 + unat (d p)
      in if int adv \<ge> rem then None
         else if adv = 1 then Some (p + 1)
         else chain_walk d (p + adv) (rem - int adv))"
  by pat_completeness auto
termination
proof (relation "measure (\<lambda>(d, p, rem). nat rem)")
  fix d :: mem and p :: nat and rem :: int and x
  assume "x = 1 + unat (d p)" "\<not> rem \<le> int x" "x \<noteq> 1"
  then have "0 < rem \<and> rem - int x < rem" by linarith
  then show "((d, p + x, rem - int x), (d, p, rem)) \<in> measure (\<lambda>(d, p, rem). nat rem)" by simp
qed simp

declare chain_walk.simps [simp del]

definition SkipChunk_walk :: "mem \<Rightarrow> nat \<Rightarrow> int \<Rightarrow> nat option" where
  "SkipChunk_walk d p rem = (if 1 \<ge> rem then None else chain_walk d (p + 1) (rem - 1))"

lemma SkipChunk_loop_walk:
  "SkipChunk_loop d p n = (ok, p', n') \<Longrightarrow>
     (ok \<longleftrightarrow> chain_walk d p n \<noteq> None) \<and>
     (ok \<longrightarrow> chain_walk d p n = Some p' \<and> p < p' \<and> d (p' - 1) = 0
              \<and> n' = n - int (p' - p) \<and> 0 < n')"
proof (induction d p n rule: SkipChunk_loop.induct)
  case (1 d p n)
  let ?skip = "1 + unat (d p)"
  show ?case
  proof (cases "n - int ?skip \<le> 0")
    case True
    with "1.prems" show ?thesis
      by (subst chain_walk.simps, subst (asm) SkipChunk_loop.simps) (auto simp: Let_def)
  next
    case False
    note nz = this
    show ?thesis
    proof (cases "?skip > 1")
      case True
      with nz "1.prems" have rec: "SkipChunk_loop d (p + ?skip) (n - int ?skip) = (ok, p', n')"
        by (subst (asm) SkipChunk_loop.simps) (simp add: Let_def)
      have cw: "chain_walk d p n = chain_walk d (p + ?skip) (n - int ?skip)"
        using nz True by (subst chain_walk.simps) (simp add: Let_def)
      from "1.IH"[OF refl refl refl nz True rec] show ?thesis
        unfolding cw by auto
    next
      case False
      then have z: "unat (d p) = 0" by simp
      then have z': "d p = 0" by (simp add: unat_eq_0)
      from nz False "1.prems" have "ok" "p' = p + 1" "n' = n - 1"
        by (subst (asm) SkipChunk_loop.simps, simp add: Let_def z)+
      moreover have "chain_walk d p n = Some (p + 1)"
        using nz z by (subst chain_walk.simps) (simp add: Let_def)
      ultimately show ?thesis using nz z z' by simp
    qed
  qed
qed

text \<open>
  Claim C8, as amended. \<^verbatim>\<open>_GIF_SkipChunk\<close> advances the cursor past one sub-block chain
  and returns failure if and only if some advance would reach or exceed the remaining
  byte count. Whenever it returns success, the cursor is where the walk of the chain
  ends, one byte past the zero-length terminator, the remaining size has been decreased
  by exactly the number of bytes advanced, and it is still positive.
\<close>

theorem GIF_SkipChunk_walks_chain:
  "GIF_SkipChunk d p n = (ok, p', n') \<Longrightarrow>
     (ok \<longleftrightarrow> SkipChunk_walk d p n \<noteq> None) \<and>
     (ok \<longrightarrow> SkipChunk_walk d p n = Some p' \<and> d (p' - 1) = 0
              \<and> n' = n - int (p' - p) \<and> 0 < n')"
proof (cases "n - 1 \<le> 0")
  case True
  assume "GIF_SkipChunk d p n = (ok, p', n')"
  with True show ?thesis by (simp add: GIF_SkipChunk_def SkipChunk_walk_def)
next
  case False
  assume "GIF_SkipChunk d p n = (ok, p', n')"
  with False have "SkipChunk_loop d (p + 1) (n - 1) = (ok, p', n')"
    by (simp add: GIF_SkipChunk_def)
  from SkipChunk_loop_walk[OF this] False show ?thesis
    by (auto simp: SkipChunk_walk_def)
qed

theorem GIF_SkipChunk_walks_chain_witness:
  "GIF_SkipChunk (bytes [0xF9, 1, 0xAA, 0, 0x3B]) 0 5 = (True, 4, 1) \<and>
   SkipChunk_walk (bytes [0xF9, 1, 0xAA, 0, 0x3B]) 0 5 = Some 4"
proof -
  have e: "GIF_SkipChunk (bytes [0xF9, 1, 0xAA, 0, 0x3B]) 0 5 = (True, 4, 1)"
    by (simp add: GIF_SkipChunk_def SkipChunk_loop.simps bytes_def)
  from GIF_SkipChunk_walks_chain[OF e] show ?thesis using e by simp
qed

text \<open>
  Claim C8 as stated fails: a chain that ends exactly at the end of the input (label
  byte and terminator, two bytes remaining) is skipped without any advance exceeding
  the remaining bytes, and \<^verbatim>\<open>_GIF_SkipChunk\<close> returns failure.
\<close>

theorem GIF_SkipChunk_exact_fit_fails:
  "fst (GIF_SkipChunk (bytes [0xF9, 0]) 0 2) = False \<and>
   SkipChunk_spec (bytes [0xF9, 0]) 0 2 = Some 2"
  by (simp add: GIF_SkipChunk_def SkipChunk_spec_def SkipChunk_loop.simps chain_spec.simps
      bytes_def)


section \<open>The dictionary is never over-indexed\<close>

text \<open>
  What holds whenever a code is about to be decoded: the mask is \<open>2 ^ ccsz - 1\<close> with a
  code size between 1 and 12, and the previous code is below 4096.
\<close>

definition lzw_inv :: "lzw \<Rightarrow> bool" where
  "lzw_inv s \<longleftrightarrow> msk s = 2 ^ ccsz s - 1 \<and> 0 < ccsz s \<and> ccsz s \<le> 12 \<and> prev s < 4096 \<and> ctsz s \<le> 8"











lemma fetch_inv [simp]: "lzw_inv (fetch d s) = lzw_inv s"
  by (simp add: lzw_inv_def)











section \<open>The loops of \<^verbatim>\<open>GIF_Load\<close>, case by case\<close>







fun frames :: "event list \<Rightarrow> (GIF_WHDR \<times> (nat \<Rightarrow> u8)) list" where
  "frames [] = []"
| "frames (Frame w r # es) = (w, r) # frames es"
| "frames (e # es) = frames es"

fun last_gce :: "nat option \<Rightarrow> event list \<Rightarrow> nat option" where
  "last_gce g [] = g"
| "last_gce g (Gce p # es) = last_gce (Some p) es"
| "last_gce g (e # es) = last_gce g es"

fun gce_frames :: "nat option \<Rightarrow> event list \<Rightarrow> (nat option \<times> GIF_WHDR) list" where
  "gce_frames g [] = []"
| "gce_frames g (Gce p # es) = gce_frames (Some p) es"
| "gce_frames g (Frame w r # es) = (g, w) # gce_frames g es"
| "gce_frames g (e # es) = gce_frames g es"

lemma frames_append [simp]: "frames (xs @ ys) = frames xs @ frames ys"
  by (induction xs rule: frames.induct) simp_all

lemma last_gce_append [simp]: "last_gce g (xs @ ys) = last_gce (last_gce g xs) ys"
  by (induction g xs rule: last_gce.induct) simp_all

lemma gce_frames_append [simp]:
  "gce_frames g (xs @ ys) = gce_frames g xs @ gce_frames (last_gce g xs) ys"
  by (induction g xs rule: gce_frames.induct) simp_all






text \<open>
  \<open>signature_ok\<close>: the call passes the check of lines 258 to 260. \<open>data_start\<close>: the offset
  of the first block, after the global header and the global palette. \<open>counted\<close>:
  \<^verbatim>\<open>whdr.nfrm\<close> as line 284 sets it, the number of frames that the counting loop found,
  negated when the loop did not reach the ending mark 0x3B.
\<close>

definition signature_ok :: "mem \<Rightarrow> int \<Rightarrow> int \<Rightarrow> bool" where
  "signature_ok d n skip \<longleftrightarrow>
     13 < n \<and> d 0 = 71 \<and> d 1 = 73 \<and> d 2 = 70 \<and> d 3 = 56 \<and> 0 \<le> skip \<and>
     (d 4 = 55 \<or> d 4 = 57) \<and> d 5 = 97"

definition data_start :: "mem \<Rightarrow> nat" where
  "data_start d = 13 + (if d 10 AND 0x80 \<noteq> 0 then 3 * (2 * 2 ^ unat (d 10 AND 7)) else 0)"

definition counted :: "mem \<Rightarrow> int \<Rightarrow> int" where
  "counted d n =
     (case count_loop d (d 10) (data_start d) (n - int (data_start d)) 0 None of
        (desc, cnt, pal) \<Rightarrow> if desc = 0x3B then cnt else - cnt)"



section \<open>The allocator\<close>




section \<open>Graphics control extensions\<close>












section \<open>The return value and the frames passed to the sink\<close>











text \<open>\<open>complete\<close>: the counting loop reaches the ending mark 0x3B.\<close>

definition complete :: "mem \<Rightarrow> int \<Rightarrow> bool" where
  "complete d n \<longleftrightarrow>
     fst (count_loop d (d 10) (data_start d) (n - int (data_start d)) 0 None) = 0x3B"




lemmas count_eval = counted_def complete_def data_start_def signature_ok_def













section \<open>A frame without a stop code\<close>






section \<open>The pixels of a frame\<close>






text \<open>
  \<open>pix_inv c r0 s\<close>: the byte \<^verbatim>\<open>code[i] >> 24\<close> of every dictionary entry is below \<open>2 ^ c\<close>,
  and every byte of the raster is the byte of \<open>r0\<close> at that place or is below \<open>2 ^ c\<close>.
  \<open>flow_pix\<close> says it of the state in which a piece of the loop body ends.
\<close>

definition pix_inv :: "nat \<Rightarrow> (nat \<Rightarrow> u8) \<Rightarrow> lzw \<Rightarrow> bool" where
  "pix_inv c r0 s \<longleftrightarrow>
     (\<forall>i<4096. unat (drop_bit 24 (code s i)) < 2 ^ c) \<and>
     (\<forall>i. ras s i = r0 i \<or> unat (ras s i) < 2 ^ c)"

definition flow_pix :: "nat \<Rightarrow> (nat \<Rightarrow> u8) \<Rightarrow> lzw flow \<Rightarrow> bool" where
  "flow_pix c r0 f = (case f of Next s \<Rightarrow> pix_inv c r0 s | Return r s \<Rightarrow> pix_inv c r0 s | Abort a \<Rightarrow> True)"

lemma flow_pix_simps [simp]:
  "flow_pix c r0 (Next s) = pix_inv c r0 s"
  "flow_pix c r0 (Return r s) = pix_inv c r0 s"
  "flow_pix c r0 (Abort a) = True"
  by (simp_all add: flow_pix_def)

lemma pix_inv_same: "code t = code s \<Longrightarrow> ras t = ras s \<Longrightarrow> pix_inv c r0 t = pix_inv c r0 s"
  by (simp add: pix_inv_def)

lemma pix_inv_upd [simp]:
  "pix_inv c r0 (s\<lparr>buff := x0\<rparr>) = pix_inv c r0 s"
  "pix_inv c r0 (s\<lparr>sz := x1\<rparr>) = pix_inv c r0 s"
  "pix_inv c r0 (s\<lparr>bptr := x2\<rparr>) = pix_inv c r0 s"
  "pix_inv c r0 (s\<lparr>load := x3\<rparr>) = pix_inv c r0 s"
  "pix_inv c r0 (s\<lparr>msk := x4\<rparr>) = pix_inv c r0 s"
  "pix_inv c r0 (s\<lparr>iter := x5\<rparr>) = pix_inv c r0 s"
  "pix_inv c r0 (s\<lparr>ctbl := x6\<rparr>) = pix_inv c r0 s"
  "pix_inv c r0 (s\<lparr>curr := x7\<rparr>) = pix_inv c r0 s"
  "pix_inv c r0 (s\<lparr>prev := x8\<rparr>) = pix_inv c r0 s"
  "pix_inv c r0 (s\<lparr>ctsz := x9\<rparr>) = pix_inv c r0 s"
  "pix_inv c r0 (s\<lparr>ccsz := x10\<rparr>) = pix_inv c r0 s"
  "pix_inv c r0 (s\<lparr>bseq := x11\<rparr>) = pix_inv c r0 s"
  "pix_inv c r0 (s\<lparr>bszc := x12\<rparr>) = pix_inv c r0 s"
  "pix_inv c r0 (s\<lparr>rlen := x13\<rparr>) = pix_inv c r0 s"
  by (simp_all add: pix_inv_def)






lemma next_code_pix [simp]: "pix_inv c r0 (next_code s) = pix_inv c r0 s"
  by (simp add: next_code_def pix_inv_def)




lemma fetch_pix [simp]: "pix_inv c r0 (fetch d s) = pix_inv c r0 s"
  by (simp add: pix_inv_def)









text \<open>
  The condition on the dictionary scratch cannot be dropped. After the clear code 4
  the code 6 is not in the table yet, so the string of the previous code is written,
  and the previous code is the clear code itself: \<^verbatim>\<open>code[4]\<close> is read, an entry that the
  decoder never writes. With \<^verbatim>\<open>0xFF\<close> left there, a frame of minimum code size 2 gets
  pixels \<^verbatim>\<open>0xFF\<close>.
\<close>

lemma stale_entry_pixel:
  "case GIF_LoadFrame (bytes [2, 2, 0x74, 0x01, 0, 0x3B]) 0 6 (\<lambda>_. 0xFF000000) (\<lambda>_. 0) 2 of
     Inr (ret, s) \<Rightarrow> ret = 1 \<and> ras s 0 = 0xFF \<and> ras s 1 = 0xFF
   | Inl a \<Rightarrow> False"
  by (simp add: lzw_eval bytes_def fun_upd_idem unset_bit_0)


section \<open>Resuming after a truncated input\<close>


















text \<open>
  When every frame has been loaded already (\<open>skip\<close> is the number of frames counted), the
  extraction loop is not entered and the call returns 0, although the input has its
  ending mark and one frame.
\<close>

lemma gif1_all_skipped:
  "GIF_Load (bytes gif1) 34 False 0 (\<lambda>_. 0) (\<lambda>_. 0) =
     Inr (- 1, [Alloc 16385, Frame (frame1 0 (- 1)) (\<lambda>_. 0), Free 16385])"
  "complete (bytes gif1) 35" "counted (bytes gif1) 35 = 1"
  "GIF_Load (bytes gif1) 35 False 1 (\<lambda>_. 0) (\<lambda>_. 0) = Inr (0, [Alloc 16385, Free 16385])"
  by (simp_all add: count_eval load_eval lzw_eval bytes_def gif1_def fun_upd_idem frame1_def Let_def)

end
